theory Spec2Isabelle
  imports Main "HOL-Library.Word" "HOL-Library.Multiset"
begin

section \<open>Dance battle scoreboard: data model\<close>

text \<open>
  The repository holds two variants of one React component: \<^verbatim>\<open>src/src/App.tsx\<close>
  (suffix \<open>_v1\<close> below) and \<^verbatim>\<open>src/unnamed/part_001\<close> (suffix \<open>_v2\<close>). Each keeps
  its state in \<^verbatim>\<open>useState\<close> cells and changes it in event handlers; a handler is
  modelled as a function from the state before the event to the state after it.

  A TypeScript \<^verbatim>\<open>string\<close> is a sequence of UTF-16 code units, modelled as a list of
  16-bit words.

  A TypeScript \<^verbatim>\<open>number\<close> is a double. The score inputs deliver integers
  (\<^verbatim>\<open>parseInt(..) || 0\<close> in the first variant, a star count in the second), and a
  double holds every integer from \<open>- 2 ^ 53\<close> to \<open>2 ^ 53\<close>; the sum or difference of
  two of them is computed exactly when it lies in this range again. Numbers are modelled
  as integers, which is what the program computes as long as no operand and no result
  leaves this range; beyond it the program rounds and the integers do not. The
  statements about totals and about the order of the leaderboard therefore carry a bound
  on the stored values (\<open>scoresExact\<close>, \<open>magnitude\<close> below), under which every
  addition and subtraction of the program is exact (\<open>checkedTotal_v1\<close>,
  \<open>checkedTotal_v2\<close>).

  The two effects that read and write the lists in \<^verbatim>\<open>localStorage\<close> are left out:
  they change neither list.
\<close>

type_synonym jsstring = "16 word list"

definition js :: "string \<Rightarrow> jsstring" where
  \<comment> \<open>an ASCII literal of the source as code units\<close>
  "js s = map (\<lambda>c. of_nat (of_char c)) s"

record Competitor =
  id' :: jsstring
  name :: jsstring

record CategoryScores =
  creativity :: int
  technique :: int
  presentation :: int

record Score = CategoryScores +
  competitorId :: jsstring

datatype CategoryKey = Creativity | Technique | Presentation

record state =
  competitors :: "Competitor list"
  scores :: "Score list"
  isAddCompetitorDialogOpen :: bool
  newCompetitorName :: jsstring
  error :: "jsstring option"
  currentCompetitorId :: jsstring
  currentScores :: CategoryScores

definition zeroScores :: CategoryScores where
  "zeroScores = \<lparr>creativity = 0, technique = 0, presentation = 0\<rparr>"

definition initialState :: state where
  \<comment> \<open>the arguments of the seven \<^verbatim>\<open>useState\<close> calls\<close>
  "initialState =
     \<lparr>competitors = [], scores = [], isAddCompetitorDialogOpen = False,
      newCompetitorName = [], error = None, currentCompetitorId = [],
      currentScores = zeroScores\<rparr>"

section \<open>Library functions of the language\<close>

definition isWhiteSpace :: "16 word \<Rightarrow> bool" where
  \<comment> \<open>the code units that \<^verbatim>\<open>String.prototype.trim\<close> strips: ECMAScript's WhiteSpace
      and LineTerminator, all of them in the basic plane\<close>
  "isWhiteSpace u =
     (u = 0x0009 \<or> u = 0x000A \<or> u = 0x000B \<or> u = 0x000C \<or> u = 0x000D \<or> u = 0x0020 \<or>
      u = 0x00A0 \<or> u = 0x1680 \<or> (0x2000 \<le> u \<and> u \<le> 0x200A) \<or> u = 0x2028 \<or>
      u = 0x2029 \<or> u = 0x202F \<or> u = 0x205F \<or> u = 0x3000 \<or> u = 0xFEFF)"

definition trim :: "jsstring \<Rightarrow> jsstring" where
  "trim s = rev (dropWhile isWhiteSpace (rev (dropWhile isWhiteSpace s)))"

fun findIndex :: "('a \<Rightarrow> bool) \<Rightarrow> 'a list \<Rightarrow> int" where
  \<comment> \<open>\<^verbatim>\<open>Array.prototype.findIndex\<close>: the first index whose element passes, else \<open>-1\<close>\<close>
  "findIndex P [] = - 1"
| "findIndex P (x # xs) =
     (if P x then 0 else if findIndex P xs = - 1 then - 1 else findIndex P xs + 1)"

fun insert_cmp :: "('a \<Rightarrow> 'a \<Rightarrow> int) \<Rightarrow> 'a \<Rightarrow> 'a list \<Rightarrow> 'a list" where
  "insert_cmp cmp x [] = [x]"
| "insert_cmp cmp x (y # ys) =
     (if cmp x y \<le> 0 then x # y # ys else y # insert_cmp cmp x ys)"

definition sort_cmp :: "('a \<Rightarrow> 'a \<Rightarrow> int) \<Rightarrow> 'a list \<Rightarrow> 'a list" where
  \<comment> \<open>\<^verbatim>\<open>Array.prototype.sort\<close> with a comparator, on a copy of the array. ECMAScript
      requires the sort to be stable, and a consistent comparator (such as the
      difference of two integers) fixes the result; it is computed here by insertion
      from the right: an element stays in front of the later ones unless the
      comparator is positive.\<close>
  "sort_cmp cmp xs = foldr (insert_cmp cmp) xs []"

section \<open>The handlers of \<^verbatim>\<open>src/src/App.tsx\<close>\<close>

definition handleAddCompetitor_v1 :: "jsstring \<Rightarrow> state \<Rightarrow> state" where
  \<comment> \<open>\<open>uuid\<close> is the value \<^verbatim>\<open>crypto.randomUUID()\<close> returns\<close>
  "handleAddCompetitor_v1 uuid st =
     (if trim (newCompetitorName st) = [] then st
      else if list_ex (\<lambda>competitor. name competitor = trim (newCompetitorName st))
                (competitors st)
      then st\<lparr>error := Some (js ''Competitor name already exists.'')\<rparr>
      else
        let newCompetitor = \<lparr>id' = uuid, name = trim (newCompetitorName st)\<rparr>
        in st\<lparr>competitors := competitors st @ [newCompetitor],
               newCompetitorName := [],
               isAddCompetitorDialogOpen := False,
               error := None\<rparr>)"

definition handleRemoveCompetitor_v1 :: "jsstring \<Rightarrow> state \<Rightarrow> state" where
  "handleRemoveCompetitor_v1 cid st =
     st\<lparr>competitors := filter (\<lambda>competitor. id' competitor \<noteq> cid) (competitors st),
        scores := filter (\<lambda>score. competitorId score \<noteq> cid) (scores st)\<rparr>"

definition handleScoreChange :: "CategoryKey \<Rightarrow> int \<Rightarrow> state \<Rightarrow> state" where
  \<comment> \<open>the same in both variants; the category is always one of the three keys of
      \<^verbatim>\<open>categories\<close>\<close>
  "handleScoreChange category v st =
     st\<lparr>currentScores :=
          (case category of
             Creativity \<Rightarrow> (currentScores st)\<lparr>creativity := v\<rparr>
           | Technique \<Rightarrow> (currentScores st)\<lparr>technique := v\<rparr>
           | Presentation \<Rightarrow> (currentScores st)\<lparr>presentation := v\<rparr>)\<rparr>"

definition newScoreOf :: "state \<Rightarrow> Score" where
  \<comment> \<open>the object \<^verbatim>\<open>newScore\<close> that both variants of \<^verbatim>\<open>handleSubmitScore\<close> build\<close>
  "newScoreOf st =
     \<lparr>creativity = creativity (currentScores st),
      technique = technique (currentScores st),
      presentation = presentation (currentScores st),
      competitorId = currentCompetitorId st\<rparr>"

definition handleSubmitScore_v1 :: "state \<Rightarrow> state" where
  "handleSubmitScore_v1 st =
     (if currentCompetitorId st = []
      then st\<lparr>error := Some (js ''Please select a competitor.'')\<rparr>
      else
        let newScore = newScoreOf st;
            prevScores = scores st;
            existingScoreIndex =
              findIndex (\<lambda>score. competitorId score = competitorId newScore) prevScores
        in st\<lparr>scores :=
                 (if existingScoreIndex > - 1
                  then prevScores[nat existingScoreIndex := newScore]
                  else prevScores @ [newScore]),
               currentScores := zeroScores,
               currentCompetitorId := [],
               error := None\<rparr>)"

definition getCompetitorScores :: "Score list \<Rightarrow> jsstring \<Rightarrow> Score list" where
  "getCompetitorScores scs cid = filter (\<lambda>score. competitorId score = cid) scs"

definition calculateTotalScore_v1 :: "Score list \<Rightarrow> jsstring \<Rightarrow> int" where
  \<comment> \<open>\<^verbatim>\<open>let total = 0; competitorScores.forEach(score => total += ...)\<close>, in
      integers: the program's value as long as every operand and every sum stays within
      \<open>2 ^ 53\<close> in absolute value (\<open>checkedSum_v1\<close> below), beyond which the program
      rounds\<close>
  "calculateTotalScore_v1 scs cid =
     foldl (\<lambda>total score. total + (creativity score + technique score + presentation score))
       0 (getCompetitorScores scs cid)"

definition sortedCompetitors_v1 :: "Competitor list \<Rightarrow> Score list \<Rightarrow> Competitor list" where
  \<comment> \<open>the comparator subtracts integer totals: the program's comparator as long as the
      totals and their difference stay within \<open>2 ^ 53\<close> in absolute value\<close>
  "sortedCompetitors_v1 cs scs =
     sort_cmp (\<lambda>a b.
        let scoreA = calculateTotalScore_v1 scs (id' a);
            scoreB = calculateTotalScore_v1 scs (id' b)
        in scoreB - scoreA) cs"

section \<open>The handlers of \<^verbatim>\<open>src/unnamed/part_001\<close>\<close>

definition handleAddCompetitor_v2 :: "jsstring \<Rightarrow> state \<Rightarrow> state" where
  "handleAddCompetitor_v2 uuid st =
     (if trim (newCompetitorName st) = []
      then st\<lparr>error := Some (js ''Competitor name cannot be empty.'')\<rparr>
      else if list_ex (\<lambda>competitor. name competitor = trim (newCompetitorName st))
                (competitors st)
      then st\<lparr>error := Some (js ''Competitor name already exists.'')\<rparr>
      else
        let newCompetitor = \<lparr>id' = uuid, name = trim (newCompetitorName st)\<rparr>
        in st\<lparr>competitors := competitors st @ [newCompetitor],
               newCompetitorName := [],
               isAddCompetitorDialogOpen := False,
               error := None\<rparr>)"

definition handleRemoveCompetitor_v2 :: "jsstring \<Rightarrow> state \<Rightarrow> state" where
  \<comment> \<open>the selection and the entry fields are reset only when the roster becomes empty\<close>
  "handleRemoveCompetitor_v2 cid st =
     (let updatedCompetitors = filter (\<lambda>competitor. id' competitor \<noteq> cid) (competitors st);
          st' = (if length updatedCompetitors = 0
                 then st\<lparr>currentScores := zeroScores, currentCompetitorId := []\<rparr>
                 else st)
      in st'\<lparr>competitors := updatedCompetitors,
             scores := filter (\<lambda>score. competitorId score \<noteq> cid) (scores st)\<rparr>)"

definition handleSubmitScore_v2 :: "state \<Rightarrow> state" where
  "handleSubmitScore_v2 st =
     (if currentCompetitorId st = []
      then st\<lparr>error := Some (js ''Please select a competitor.'')\<rparr>
      else
        let newScore = newScoreOf st;
            prevScores = scores st;
            existingIndex =
              findIndex (\<lambda>score. competitorId score = competitorId newScore) prevScores
        in st\<lparr>scores :=
                 (if existingIndex > - 1
                  then
                    let existingScore = prevScores ! nat existingIndex
                    in prevScores[nat existingIndex :=
                         \<lparr>creativity = creativity existingScore + creativity newScore,
                          technique = technique existingScore + technique newScore,
                          presentation = presentation existingScore + presentation newScore,
                          competitorId = competitorId newScore\<rparr>]
                  else prevScores @ [newScore]),
               currentScores := zeroScores,
               currentCompetitorId := [],
               error := None\<rparr>)"

definition calculateTotalScore_v2 :: "Score list \<Rightarrow> jsstring \<Rightarrow> int" where
  \<comment> \<open>\<^verbatim>\<open>getCompetitorScores(id).reduce((total, score) => total + ..., 0)\<close>, in
      integers, with the same range (\<open>checkedSum_v2\<close> below)\<close>
  "calculateTotalScore_v2 scs cid =
     foldl (\<lambda>total score. total + creativity score + technique score + presentation score)
       0 (getCompetitorScores scs cid)"

definition sortedCompetitors_v2 :: "Competitor list \<Rightarrow> Score list \<Rightarrow> Competitor list" where
  \<comment> \<open>as in the first variant, within the same range\<close>
  "sortedCompetitors_v2 cs scs =
     sort_cmp (\<lambda>a b. calculateTotalScore_v2 scs (id' b) - calculateTotalScore_v2 scs (id' a)) cs"

section \<open>The operations of the scoreboard engine\<close>

text \<open>
  The specification names the operations \<open>addCompetitor(name)\<close>,
  \<open>removeCompetitor(id)\<close> and \<open>submitScore(competitorId, values)\<close>. In the code the
  arguments of the first and the last arrive through state cells that the input
  controls set (\<^verbatim>\<open>setNewCompetitorName\<close>, \<^verbatim>\<open>setCurrentCompetitorId\<close>,
  \<^verbatim>\<open>handleScoreChange\<close>) before the handler runs; the operations below set these
  cells and call the handler. \<open>removeCompetitor\<close> is the handler itself.
\<close>

definition addCompetitor_v1 :: "jsstring \<Rightarrow> jsstring \<Rightarrow> state \<Rightarrow> state" where
  "addCompetitor_v1 uuid nm st = handleAddCompetitor_v1 uuid (st\<lparr>newCompetitorName := nm\<rparr>)"

definition addCompetitor_v2 :: "jsstring \<Rightarrow> jsstring \<Rightarrow> state \<Rightarrow> state" where
  "addCompetitor_v2 uuid nm st = handleAddCompetitor_v2 uuid (st\<lparr>newCompetitorName := nm\<rparr>)"

definition submitScore_v1 :: "jsstring \<Rightarrow> CategoryScores \<Rightarrow> state \<Rightarrow> state" where
  "submitScore_v1 cid vals st =
     handleSubmitScore_v1 (st\<lparr>currentCompetitorId := cid, currentScores := vals\<rparr>)"

definition submitScore_v2 :: "jsstring \<Rightarrow> CategoryScores \<Rightarrow> state \<Rightarrow> state" where
  "submitScore_v2 cid vals st =
     handleSubmitScore_v2 (st\<lparr>currentCompetitorId := cid, currentScores := vals\<rparr>)"

section \<open>Events of the user interface\<close>

text \<open>
  One constructor for each callback that the markup attaches to a control.
  \<open>ClickAdd\<close> carries the identifier that \<^verbatim>\<open>crypto.randomUUID()\<close> delivers.
\<close>

datatype event =
    SetDialogOpen bool
  | DialogOpenChange bool
  | TypeName jsstring
  | ClickAdd jsstring
  | ClickRemove jsstring
  | SelectCompetitor jsstring
  | ChangeScore CategoryKey int
  | ClickSubmit

fun step_v1 :: "event \<Rightarrow> state \<Rightarrow> state" where
  "step_v1 (SetDialogOpen b) st = st\<lparr>isAddCompetitorDialogOpen := b\<rparr>"
| "step_v1 (DialogOpenChange b) st = st\<lparr>isAddCompetitorDialogOpen := b\<rparr>"
| "step_v1 (TypeName s) st = st\<lparr>newCompetitorName := s\<rparr>"
| "step_v1 (ClickAdd uuid) st = handleAddCompetitor_v1 uuid st"
| "step_v1 (ClickRemove cid) st = handleRemoveCompetitor_v1 cid st"
| "step_v1 (SelectCompetitor cid) st = st\<lparr>currentCompetitorId := cid\<rparr>"
| "step_v1 (ChangeScore category v) st = handleScoreChange category v st"
| "step_v1 ClickSubmit st = handleSubmitScore_v1 st"

fun step_v2 :: "event \<Rightarrow> state \<Rightarrow> state" where
  "step_v2 (SetDialogOpen b) st = st\<lparr>isAddCompetitorDialogOpen := b\<rparr>"
| "step_v2 (DialogOpenChange b) st =
     (if \<not> b then st\<lparr>isAddCompetitorDialogOpen := b, newCompetitorName := [], error := None\<rparr>
      else st\<lparr>isAddCompetitorDialogOpen := b\<rparr>)"
| "step_v2 (TypeName s) st = st\<lparr>newCompetitorName := s\<rparr>"
| "step_v2 (ClickAdd uuid) st = handleAddCompetitor_v2 uuid st"
| "step_v2 (ClickRemove cid) st = handleRemoveCompetitor_v2 cid st"
| "step_v2 (SelectCompetitor cid) st = st\<lparr>currentCompetitorId := cid\<rparr>"
| "step_v2 (ChangeScore category v) st = handleScoreChange category v st"
| "step_v2 ClickSubmit st = handleSubmitScore_v2 st"

text \<open>
  The markup renders a control only in some states: the name field and the add button
  inside the open dialog, one remove button for each competitor of the roster, the score
  form (selection, score inputs, submit button) while the roster is not empty. The
  selection offers the identifiers of the roster; the first variant's \<^verbatim>\<open>select\<close> also
  has a placeholder option with the empty value. The stars of the second variant deliver
  a value from 0 to 10.
\<close>

fun enabled_v1 :: "event \<Rightarrow> state \<Rightarrow> bool" where
  "enabled_v1 (SetDialogOpen b) st = True"
| "enabled_v1 (DialogOpenChange b) st = True"
| "enabled_v1 (TypeName s) st = isAddCompetitorDialogOpen st"
| "enabled_v1 (ClickAdd uuid) st = isAddCompetitorDialogOpen st"
| "enabled_v1 (ClickRemove cid) st = list_ex (\<lambda>c. id' c = cid) (competitors st)"
| "enabled_v1 (SelectCompetitor cid) st =
     (competitors st \<noteq> [] \<and> (cid = [] \<or> list_ex (\<lambda>c. id' c = cid) (competitors st)))"
| "enabled_v1 (ChangeScore category v) st = (competitors st \<noteq> [])"
| "enabled_v1 ClickSubmit st = (competitors st \<noteq> [])"

fun enabled_v2 :: "event \<Rightarrow> state \<Rightarrow> bool" where
  "enabled_v2 (SetDialogOpen b) st = True"
| "enabled_v2 (DialogOpenChange b) st = True"
| "enabled_v2 (TypeName s) st = isAddCompetitorDialogOpen st"
| "enabled_v2 (ClickAdd uuid) st = isAddCompetitorDialogOpen st"
| "enabled_v2 (ClickRemove cid) st = list_ex (\<lambda>c. id' c = cid) (competitors st)"
| "enabled_v2 (SelectCompetitor cid) st =
     (competitors st \<noteq> [] \<and> list_ex (\<lambda>c. id' c = cid) (competitors st))"
| "enabled_v2 (ChangeScore category v) st = (competitors st \<noteq> [] \<and> 0 \<le> v \<and> v \<le> 10)"
| "enabled_v2 ClickSubmit st = (competitors st \<noteq> [])"

fun run_v1 :: "event list \<Rightarrow> state \<Rightarrow> state option" where
  \<comment> \<open>the state after a sequence of events, \<open>None\<close> if some event's control is not rendered\<close>
  "run_v1 [] st = Some st"
| "run_v1 (ev # evs) st = (if enabled_v1 ev st then run_v1 evs (step_v1 ev st) else None)"

fun run_v2 :: "event list \<Rightarrow> state \<Rightarrow> state option" where
  "run_v2 [] st = Some st"
| "run_v2 (ev # evs) st = (if enabled_v2 ev st then run_v2 evs (step_v2 ev st) else None)"

text \<open>
  The reachable states: those the handlers produce from the initial state, whatever
  their arguments and whatever their order. Every state the user interface can show is
  among them.
\<close>

inductive reachable_v1 :: "state \<Rightarrow> bool" where
  reach_init_v1: "reachable_v1 initialState"
| reach_step_v1: "reachable_v1 st \<Longrightarrow> reachable_v1 (step_v1 ev st)"

inductive reachable_v2 :: "state \<Rightarrow> bool" where
  reach_init_v2: "reachable_v2 initialState"
| reach_step_v2: "reachable_v2 st \<Longrightarrow> reachable_v2 (step_v2 ev st)"

section \<open>Properties of the data model\<close>

definition totalOf :: "Score \<Rightarrow> int" where
  "totalOf s = creativity s + technique s + presentation s"


definition scoresReferenceCompetitors :: "state \<Rightarrow> bool" where
  \<comment> \<open>every score record belongs to a competitor of the roster\<close>
  "scoresReferenceCompetitors st =
     list_all (\<lambda>s. list_ex (\<lambda>c. id' c = competitorId s) (competitors st)) (scores st)"

definition namesTrimmed :: "Competitor list \<Rightarrow> bool" where
  \<comment> \<open>every name of the roster is non-empty and has no white space at either end\<close>
  "namesTrimmed cs = list_all (\<lambda>c. name c \<noteq> [] \<and> trim (name c) = name c) cs"

section \<open>A session that leaves a score record without its competitor\<close>

definition uuidA :: jsstring where
  "uuidA = js ''36b8f84d-df4e-4d49-b662-bcde71a8764f''"

definition uuidB :: jsstring where
  "uuidB = js ''1b9d6bcd-bbfd-4b2d-9b5d-ab8dfbbd4bed''"

definition alice :: Competitor where
  "alice = \<lparr>id' = uuidA, name = js ''Alice''\<rparr>"

definition bob :: Competitor where
  "bob = \<lparr>id' = uuidB, name = js ''Bob''\<rparr>"

definition fiveThreeTwo :: CategoryScores where
  "fiveThreeTwo = \<lparr>creativity = 5, technique = 3, presentation = 2\<rparr>"

definition aliceRecord :: Score where
  "aliceRecord = \<lparr>creativity = 5, technique = 3, presentation = 2, competitorId = uuidA\<rparr>"

definition staleSelectionEvents :: "event list" where
  \<comment> \<open>add Alice, add Bob, select Alice and enter her scores, then remove Alice\<close>
  "staleSelectionEvents =
     [SetDialogOpen True, TypeName (js ''Alice''), ClickAdd uuidA,
      SetDialogOpen True, TypeName (js ''Bob''), ClickAdd uuidB,
      SelectCompetitor uuidA,
      ChangeScore Creativity 5, ChangeScore Technique 3, ChangeScore Presentation 2,
      ClickRemove uuidA]"

definition staleSelectionState :: state where
  \<comment> \<open>the state after these events: Alice is gone and still selected\<close>
  "staleSelectionState =
     \<lparr>competitors = [bob], scores = [], isAddCompetitorDialogOpen = False,
      newCompetitorName = [], error = None, currentCompetitorId = uuidA,
      currentScores = fiveThreeTwo\<rparr>"

definition orphanState :: state where
  \<comment> \<open>the state after the submit button is clicked next\<close>
  "orphanState =
     \<lparr>competitors = [bob], scores = [aliceRecord], isAddCompetitorDialogOpen = False,
      newCompetitorName = [], error = None, currentCompetitorId = [],
      currentScores = zeroScores\<rparr>"

definition aliceOnlyState :: state where
  \<comment> \<open>the state after Alice alone has been added\<close>
  "aliceOnlyState =
     \<lparr>competitors = [alice], scores = [], isAddCompetitorDialogOpen = False,
      newCompetitorName = [], error = None, currentCompetitorId = [],
      currentScores = zeroScores\<rparr>"

definition accumulated :: "Score \<Rightarrow> Score \<Rightarrow> Score" where
  \<comment> \<open>the record the second variant stores over an existing one\<close>
  "accumulated existingScore newScore =
     \<lparr>creativity = creativity existingScore + creativity newScore,
      technique = technique existingScore + technique newScore,
      presentation = presentation existingScore + presentation newScore,
      competitorId = competitorId newScore\<rparr>"

definition resubmitState :: state where
  \<comment> \<open>Alice has the record 5, 3, 2 and is selected; 1, 1, 1 is entered\<close>
  "resubmitState =
     \<lparr>competitors = [alice], scores = [aliceRecord], isAddCompetitorDialogOpen = False,
      newCompetitorName = [], error = None, currentCompetitorId = uuidA,
      currentScores = \<lparr>creativity = 1, technique = 1, presentation = 1\<rparr>\<rparr>"

section \<open>Where the integers are the numbers of the program\<close>










definition aliceScoredEvents :: "event list" where
  \<comment> \<open>add Alice, select her, enter 5, 3, 2 and submit\<close>
  "aliceScoredEvents =
     [SetDialogOpen True, TypeName (js ''Alice''), ClickAdd uuidA, SelectCompetitor uuidA,
      ChangeScore Creativity 5, ChangeScore Technique 3, ChangeScore Presentation 2,
      ClickSubmit]"

definition aliceScoredState :: state where
  \<comment> \<open>the state after these events: nobody is selected\<close>
  "aliceScoredState =
     \<lparr>competitors = [alice], scores = [aliceRecord], isAddCompetitorDialogOpen = False,
      newCompetitorName = [], error = None, currentCompetitorId = [],
      currentScores = zeroScores\<rparr>"

section \<open>Facts about the library functions\<close>

lemma trim_eq_Nil_iff: "trim s = [] \<longleftrightarrow> list_all isWhiteSpace s"
proof
  assume "trim s = []"
  then have "dropWhile isWhiteSpace (rev (dropWhile isWhiteSpace s)) = []"
    by (simp add: trim_def)
  then have all: "\<forall>u\<in>set (dropWhile isWhiteSpace s). isWhiteSpace u"
    by (simp add: dropWhile_eq_Nil_conv)
  have "dropWhile isWhiteSpace s = []"
  proof (rule ccontr)
    assume ne: "dropWhile isWhiteSpace s \<noteq> []"
    then have "\<not> isWhiteSpace (hd (dropWhile isWhiteSpace s))"
      by (rule hd_dropWhile)
    moreover have "hd (dropWhile isWhiteSpace s) \<in> set (dropWhile isWhiteSpace s)"
      using ne by simp
    ultimately show False using all by blast
  qed
  then show "list_all isWhiteSpace s"
    by (simp add: dropWhile_eq_Nil_conv list_all_iff)
next
  assume "list_all isWhiteSpace s"
  then have "dropWhile isWhiteSpace s = []"
    by (simp add: dropWhile_eq_Nil_conv list_all_iff)
  then show "trim s = []"
    by (simp only: trim_def rev.simps dropWhile.simps)
qed

lemma last_dropWhile_rev_dropWhile:
  assumes ne: "dropWhile P (rev (dropWhile P s)) \<noteq> []"
  shows "\<not> P (last (dropWhile P (rev (dropWhile P s))))"
proof -
  have d: "dropWhile P s \<noteq> []"
  proof
    assume "dropWhile P s = []"
    then have "dropWhile P (rev (dropWhile P s)) = []"
      by (simp only: rev.simps dropWhile.simps)
    with ne show False by contradiction
  qed
  then have nP: "\<not> P (hd (dropWhile P s))"
    by (rule hd_dropWhile)
  have mem: "hd (dropWhile P s) \<in> set (rev (dropWhile P s))"
    using d by simp
  have "last (dropWhile P (rev (dropWhile P s))) = last (rev (dropWhile P s))"
    using mem nP by (rule dropWhile_last)
  moreover have "last (rev (dropWhile P s)) = hd (dropWhile P s)"
    using d by (simp add: last_rev)
  ultimately show ?thesis using nP by simp
qed

lemma trim_idem: "trim (trim s) = trim s"
proof -
  define e where "e = dropWhile isWhiteSpace (rev (dropWhile isWhiteSpace s))"
  have t: "trim s = rev e"
    by (simp add: trim_def e_def)
  have front: "dropWhile isWhiteSpace (rev e) = rev e"
  proof (cases "e = []")
    case True
    then show ?thesis by simp
  next
    case False
    then have "\<not> isWhiteSpace (last e)"
      unfolding e_def by (rule last_dropWhile_rev_dropWhile)
    with False have "\<not> isWhiteSpace (hd (rev e))"
      by (simp add: hd_rev)
    then show ?thesis
      by (simp add: dropWhile_eq_self_iff)
  qed
  have rear: "dropWhile isWhiteSpace e = e"
    unfolding e_def by (rule dropWhile_idem)
  have "trim (rev e) = rev (dropWhile isWhiteSpace (rev (dropWhile isWhiteSpace (rev e))))"
    by (simp add: trim_def)
  also have "\<dots> = rev e"
    by (simp add: front rear)
  finally show ?thesis
    by (simp add: t)
qed

lemma findIndex_ge: "- 1 \<le> findIndex P xs"
  by (induction xs) auto

lemma findIndex_none: "findIndex P xs = - 1 \<longleftrightarrow> \<not> list_ex P xs"
proof (induction xs)
  case Nil
  show ?case by simp
next
  case (Cons x xs)
  have "findIndex P xs + 1 \<noteq> - 1"
    using findIndex_ge [of P xs] by arith
  with Cons show ?case by simp
qed

lemma findIndex_found:
  "list_ex P xs \<Longrightarrow>
     0 \<le> findIndex P xs \<and> nat (findIndex P xs) < length xs \<and> P (xs ! nat (findIndex P xs))"
proof (induction xs)
  case Nil
  then show ?case by simp
next
  case (Cons x xs)
  show ?case
  proof (cases "P x")
    case True
    then show ?thesis by simp
  next
    case False
    with Cons.prems have ex: "list_ex P xs" by simp
    then have ne: "findIndex P xs \<noteq> - 1" by (simp add: findIndex_none)
    from Cons.IH [OF ex] have ih: "0 \<le> findIndex P xs" "nat (findIndex P xs) < length xs"
      "P (xs ! nat (findIndex P xs))" by simp_all
    have "nat (findIndex P xs + 1) = Suc (nat (findIndex P xs))"
      using ih(1) by simp
    with False ne ih show ?thesis by simp
  qed
qed

lemma mset_insert_cmp: "mset (insert_cmp cmp x ys) = add_mset x (mset ys)"
  by (induction ys) simp_all

lemma mset_sort_cmp: "mset (sort_cmp cmp xs) = mset xs"
  by (induction xs) (simp_all add: sort_cmp_def mset_insert_cmp)






section \<open>The total score\<close>

lemma total_v1_sum:
  "calculateTotalScore_v1 scs cid = sum_list (map totalOf (getCompetitorScores scs cid))"
proof -
  have "foldl (\<lambda>total score. total + (creativity score + technique score + presentation score)) a xs
      = a + sum_list (map totalOf xs)"
    for a :: int and xs :: "Score list"
    by (induction xs arbitrary: a) (simp_all add: totalOf_def)
  then show ?thesis
    by (simp add: calculateTotalScore_v1_def)
qed

lemma total_v2_sum:
  "calculateTotalScore_v2 scs cid = sum_list (map totalOf (getCompetitorScores scs cid))"
proof -
  have "foldl (\<lambda>total score. total + creativity score + technique score + presentation score) a xs
      = a + sum_list (map totalOf xs)"
    for a :: int and xs :: "Score list"
    by (induction xs arbitrary: a) (simp_all add: totalOf_def)
  then show ?thesis
    by (simp add: calculateTotalScore_v2_def)
qed

section \<open>Facts about the example data and about lists\<close>

lemma uuidA_not_Nil: "uuidA \<noteq> []"
  by (simp add: uuidA_def js_def)

lemma uuidA_not_uuidB: "uuidA \<noteq> uuidB"
  by (simp add: uuidA_def uuidB_def js_def)

lemma list_ex_filter_Nil: "\<not> list_ex P xs \<Longrightarrow> filter P xs = []"
  by (induction xs) auto

lemma find_findIndex:
  assumes "list_ex P xs"
  shows "find P xs = Some (xs ! nat (findIndex P xs))"
  using assms
proof (induction xs)
  case Nil
  then show ?case by simp
next
  case (Cons x xs)
  show ?case
  proof (cases "P x")
    case True
    then show ?thesis by simp
  next
    case False
    with Cons.prems have ex: "list_ex P xs" by simp
    then have ne: "findIndex P xs \<noteq> - 1" by (simp add: findIndex_none)
    have "0 \<le> findIndex P xs" using findIndex_found [OF ex] by simp
    then have "nat (findIndex P xs + 1) = Suc (nat (findIndex P xs))" by simp
    with False ne Cons.IH [OF ex] show ?thesis by simp
  qed
qed

lemma find_update_findIndex:
  assumes "list_ex P xs" and "P y"
  shows "find P (xs[nat (findIndex P xs) := y]) = Some y"
  using assms
proof (induction xs)
  case Nil
  then show ?case by simp
next
  case (Cons x xs)
  show ?case
  proof (cases "P x")
    case True
    with Cons.prems show ?thesis by simp
  next
    case False
    with Cons.prems have ex: "list_ex P xs" by simp
    then have ne: "findIndex P xs \<noteq> - 1" by (simp add: findIndex_none)
    have "0 \<le> findIndex P xs" using findIndex_found [OF ex] by simp
    then have "nat (findIndex P xs + 1) = Suc (nat (findIndex P xs))" by simp
    with False ne Cons.IH [OF ex Cons.prems(2)] show ?thesis by simp
  qed
qed



section \<open>The score list after a submission\<close>

lemma submit_v1_scores:
  assumes "currentCompetitorId st \<noteq> []"
  shows "scores (handleSubmitScore_v1 st) =
     (if list_ex (\<lambda>s. competitorId s = currentCompetitorId st) (scores st)
      then (scores st)[nat (findIndex (\<lambda>s. competitorId s = currentCompetitorId st) (scores st))
                         := newScoreOf st]
      else scores st @ [newScoreOf st])"
proof -
  let ?P = "\<lambda>s. competitorId s = currentCompetitorId st"
  have id: "competitorId (newScoreOf st) = currentCompetitorId st"
    by (simp add: newScoreOf_def)
  have "(findIndex ?P (scores st) > - 1) = list_ex ?P (scores st)"
    using findIndex_ge [of ?P "scores st"] findIndex_none [of ?P "scores st"] by arith
  then show ?thesis
    using assms by (simp add: handleSubmitScore_v1_def Let_def id)
qed

lemma submit_v2_scores:
  assumes "currentCompetitorId st \<noteq> []"
  shows "scores (handleSubmitScore_v2 st) =
     (if list_ex (\<lambda>s. competitorId s = currentCompetitorId st) (scores st)
      then (scores st)[nat (findIndex (\<lambda>s. competitorId s = currentCompetitorId st) (scores st))
              := accumulated
                   (scores st ! nat (findIndex (\<lambda>s. competitorId s = currentCompetitorId st) (scores st)))
                   (newScoreOf st)]
      else scores st @ [newScoreOf st])"
proof -
  let ?P = "\<lambda>s. competitorId s = currentCompetitorId st"
  have id: "competitorId (newScoreOf st) = currentCompetitorId st"
    by (simp add: newScoreOf_def)
  have "(findIndex ?P (scores st) > - 1) = list_ex ?P (scores st)"
    using findIndex_ge [of ?P "scores st"] findIndex_none [of ?P "scores st"] by arith
  then show ?thesis
    using assms by (simp add: handleSubmitScore_v2_def Let_def id accumulated_def)
qed

section \<open>Exact totals\<close>













section \<open>The total score of a competitor\<close>

lemma total_no_record:
  assumes "\<not> list_ex (\<lambda>s. competitorId s = cid) scs"
  shows "sum_list (map totalOf (getCompetitorScores scs cid)) = 0"
  using assms by (simp add: getCompetitorScores_def list_ex_filter_Nil)





section \<open>The leaderboard\<close>





section \<open>Submitting again for the same competitor\<close>

lemma update_eq_iff:
  assumes "i < length xs"
  shows "xs[i := a] = xs[i := b] \<longleftrightarrow> a = b"
proof
  assume "xs[i := a] = xs[i := b]"
  then have "xs[i := a] ! i = xs[i := b] ! i" by simp
  with assms show "a = b" by simp
next
  assume "a = b"
  then show "xs[i := a] = xs[i := b]" by simp
qed

text \<open>
  Claim C6. The two variants of \<^verbatim>\<open>handleSubmitScore\<close> are not equivalent. Where the
  selected competitor already has a score record, the first variant
  (\<^verbatim>\<open>src/src/App.tsx\<close>) leaves a record equal to the submitted values, and the second
  (\<^verbatim>\<open>src/unnamed/part_001\<close>) leaves a record whose values are the sums of the
  existing and the submitted ones. The two results are equal only when the existing
  record is zero in all three categories.
\<close>

theorem resubmission_overwrites_or_accumulates:
  assumes sel: "currentCompetitorId st \<noteq> []"
    and old: "find (\<lambda>s. competitorId s = currentCompetitorId st) (scores st) = Some existing"
  shows "find (\<lambda>s. competitorId s = currentCompetitorId st) (scores (handleSubmitScore_v1 st))
           = Some \<lparr>creativity = creativity (currentScores st),
                   technique = technique (currentScores st),
                   presentation = presentation (currentScores st),
                   competitorId = currentCompetitorId st\<rparr>
       \<and> find (\<lambda>s. competitorId s = currentCompetitorId st) (scores (handleSubmitScore_v2 st))
           = Some \<lparr>creativity = creativity existing + creativity (currentScores st),
                   technique = technique existing + technique (currentScores st),
                   presentation = presentation existing + presentation (currentScores st),
                   competitorId = currentCompetitorId st\<rparr>
       \<and> (handleSubmitScore_v1 st = handleSubmitScore_v2 st
            \<longleftrightarrow> creativity existing = 0 \<and> technique existing = 0 \<and> presentation existing = 0)"
proof -
  let ?P = "\<lambda>s. competitorId s = currentCompetitorId st"
  let ?i = "nat (findIndex ?P (scores st))"
  let ?new = "newScoreOf st"
  have ex: "list_ex ?P (scores st)"
    using old by (auto simp: find_Some_iff list_ex_iff)
  have at: "scores st ! ?i = existing"
    using find_findIndex [OF ex] old by simp
  have len: "?i < length (scores st)"
    using findIndex_found [OF ex] by simp
  have newP: "?P ?new" "?P (accumulated existing ?new)"
    by (simp_all add: newScoreOf_def accumulated_def)
  have s1: "scores (handleSubmitScore_v1 st) = (scores st)[?i := ?new]"
    using submit_v1_scores [OF sel] ex by simp
  have s2: "scores (handleSubmitScore_v2 st) = (scores st)[?i := accumulated existing ?new]"
    using submit_v2_scores [OF sel] ex at by simp
  have f1: "find ?P (scores (handleSubmitScore_v1 st)) = Some ?new"
    unfolding s1 using ex newP(1) by (rule find_update_findIndex)
  have f2: "find ?P (scores (handleSubmitScore_v2 st)) = Some (accumulated existing ?new)"
    unfolding s2 using ex newP(2) by (rule find_update_findIndex)
  have rest: "handleSubmitScore_v1 st = handleSubmitScore_v2 st
      \<longleftrightarrow> scores (handleSubmitScore_v1 st) = scores (handleSubmitScore_v2 st)"
  proof
    assume "handleSubmitScore_v1 st = handleSubmitScore_v2 st"
    then show "scores (handleSubmitScore_v1 st) = scores (handleSubmitScore_v2 st)"
      by simp
  next
    assume eq: "scores (handleSubmitScore_v1 st) = scores (handleSubmitScore_v2 st)"
    have "handleSubmitScore_v1 st
        = st\<lparr>scores := scores (handleSubmitScore_v1 st), currentScores := zeroScores,
             currentCompetitorId := [], error := None\<rparr>"
      using sel by (simp add: handleSubmitScore_v1_def Let_def)
    also have "\<dots> = st\<lparr>scores := scores (handleSubmitScore_v2 st), currentScores := zeroScores,
             currentCompetitorId := [], error := None\<rparr>"
      by (simp only: eq)
    also have "\<dots> = handleSubmitScore_v2 st"
      using sel by (simp add: handleSubmitScore_v2_def Let_def)
    finally show "handleSubmitScore_v1 st = handleSubmitScore_v2 st" .
  qed
  have "scores (handleSubmitScore_v1 st) = scores (handleSubmitScore_v2 st)
      \<longleftrightarrow> ?new = accumulated existing ?new"
    unfolding s1 s2 using len by (rule update_eq_iff)
  also have "\<dots> \<longleftrightarrow> creativity existing = 0 \<and> technique existing = 0 \<and> presentation existing = 0"
    by (auto simp: newScoreOf_def accumulated_def)
  finally have diff: "scores (handleSubmitScore_v1 st) = scores (handleSubmitScore_v2 st)
      \<longleftrightarrow> creativity existing = 0 \<and> technique existing = 0 \<and> presentation existing = 0" .
  show ?thesis
    using f1 f2 rest diff by (simp add: newScoreOf_def accumulated_def)
qed

theorem resubmission_overwrites_or_accumulates_witness:
  "currentCompetitorId resubmitState \<noteq> []
   \<and> find (\<lambda>s. competitorId s = currentCompetitorId resubmitState) (scores resubmitState)
       = Some aliceRecord
   \<and> scores (handleSubmitScore_v1 resubmitState)
       = [\<lparr>creativity = 1, technique = 1, presentation = 1, competitorId = uuidA\<rparr>]
   \<and> scores (handleSubmitScore_v2 resubmitState)
       = [\<lparr>creativity = 6, technique = 4, presentation = 3, competitorId = uuidA\<rparr>]
   \<and> handleSubmitScore_v1 resubmitState \<noteq> handleSubmitScore_v2 resubmitState"
proof -
  have sel: "currentCompetitorId resubmitState \<noteq> []"
    using uuidA_not_Nil by (simp add: resubmitState_def)
  have old: "find (\<lambda>s. competitorId s = currentCompetitorId resubmitState) (scores resubmitState)
       = Some aliceRecord"
    by (simp add: resubmitState_def aliceRecord_def)
  have v1: "scores (handleSubmitScore_v1 resubmitState)
       = [\<lparr>creativity = 1, technique = 1, presentation = 1, competitorId = uuidA\<rparr>]"
    using uuidA_not_Nil
    by (simp add: handleSubmitScore_v1_def resubmitState_def aliceRecord_def newScoreOf_def)
  have v2: "scores (handleSubmitScore_v2 resubmitState)
       = [\<lparr>creativity = 6, technique = 4, presentation = 3, competitorId = uuidA\<rparr>]"
    using uuidA_not_Nil
    by (simp add: handleSubmitScore_v2_def resubmitState_def aliceRecord_def newScoreOf_def)
  have "handleSubmitScore_v1 resubmitState \<noteq> handleSubmitScore_v2 resubmitState"
    using resubmission_overwrites_or_accumulates [OF sel old]
    by (simp add: aliceRecord_def)
  with sel old v1 v2 show ?thesis by simp
qed

section \<open>At most one score record for each competitor\<close>








lemma remove_v1_scores:
  "scores (handleRemoveCompetitor_v1 cid st) = filter (\<lambda>s. competitorId s \<noteq> cid) (scores st)"
  by (simp add: handleRemoveCompetitor_v1_def)

lemma remove_v2_scores:
  "scores (handleRemoveCompetitor_v2 cid st) = filter (\<lambda>s. competitorId s \<noteq> cid) (scores st)"
  by (simp add: handleRemoveCompetitor_v2_def Let_def)





section \<open>Running sequences of events\<close>

lemma run_v1_reachable:
  "run_v1 evs st = Some st' \<Longrightarrow> reachable_v1 st \<Longrightarrow> reachable_v1 st'"
proof (induction evs arbitrary: st)
  case Nil
  then show ?case by simp
next
  case (Cons ev evs)
  from Cons.prems(1) have "run_v1 evs (step_v1 ev st) = Some st'"
    by (simp split: if_splits)
  moreover have "reachable_v1 (step_v1 ev st)"
    using Cons.prems(2) by (rule reach_step_v1)
  ultimately show ?case by (rule Cons.IH)
qed

lemma run_v2_reachable:
  "run_v2 evs st = Some st' \<Longrightarrow> reachable_v2 st \<Longrightarrow> reachable_v2 st'"
proof (induction evs arbitrary: st)
  case Nil
  then show ?case by simp
next
  case (Cons ev evs)
  from Cons.prems(1) have "run_v2 evs (step_v2 ev st) = Some st'"
    by (simp split: if_splits)
  moreover have "reachable_v2 (step_v2 ev st)"
    using Cons.prems(2) by (rule reach_step_v2)
  ultimately show ?case by (rule Cons.IH)
qed

lemma trim_Alice: "trim (js ''Alice'') = js ''Alice''"
  by (simp add: trim_def js_def isWhiteSpace_def)

lemma trim_Bob: "trim (js ''Bob'') = js ''Bob''"
  by (simp add: trim_def js_def isWhiteSpace_def)

lemma Alice_not_Bob: "js ''Alice'' \<noteq> js ''Bob''" "js ''Alice'' \<noteq> []" "js ''Bob'' \<noteq> []"
  by (simp_all add: js_def)

lemma stale_run_v1: "run_v1 staleSelectionEvents initialState = Some staleSelectionState"
  using uuidA_not_uuidB trim_Alice trim_Bob Alice_not_Bob
  by (simp add: staleSelectionEvents_def initialState_def staleSelectionState_def
      handleAddCompetitor_v1_def handleRemoveCompetitor_v1_def handleScoreChange_def
      alice_def bob_def fiveThreeTwo_def zeroScores_def)

lemma stale_run_v2: "run_v2 staleSelectionEvents initialState = Some staleSelectionState"
  using uuidA_not_uuidB trim_Alice trim_Bob Alice_not_Bob
  by (simp add: staleSelectionEvents_def initialState_def staleSelectionState_def
      handleAddCompetitor_v2_def handleRemoveCompetitor_v2_def handleScoreChange_def
      alice_def bob_def fiveThreeTwo_def zeroScores_def)

lemma stale_submit_v1: "handleSubmitScore_v1 staleSelectionState = orphanState"
  using uuidA_not_Nil
  by (simp add: handleSubmitScore_v1_def staleSelectionState_def orphanState_def newScoreOf_def
      aliceRecord_def fiveThreeTwo_def)

lemma stale_submit_v2: "handleSubmitScore_v2 staleSelectionState = orphanState"
  using uuidA_not_Nil
  by (simp add: handleSubmitScore_v2_def staleSelectionState_def orphanState_def newScoreOf_def
      aliceRecord_def fiveThreeTwo_def)

lemma run_v1_append:
  "run_v1 (evs @ [ev]) st = (case run_v1 evs st of None \<Rightarrow> None
     | Some st' \<Rightarrow> if enabled_v1 ev st' then Some (step_v1 ev st') else None)"
  by (induction evs arbitrary: st) simp_all

lemma run_v2_append:
  "run_v2 (evs @ [ev]) st = (case run_v2 evs st of None \<Rightarrow> None
     | Some st' \<Rightarrow> if enabled_v2 ev st' then Some (step_v2 ev st') else None)"
  by (induction evs arbitrary: st) simp_all

lemma orphan_run_v1: "run_v1 (staleSelectionEvents @ [ClickSubmit]) initialState = Some orphanState"
  by (simp add: run_v1_append stale_run_v1 stale_submit_v1) (simp add: staleSelectionState_def)

lemma orphan_run_v2: "run_v2 (staleSelectionEvents @ [ClickSubmit]) initialState = Some orphanState"
  by (simp add: run_v2_append stale_run_v2 stale_submit_v2) (simp add: staleSelectionState_def)


section \<open>What a submission does to the score list\<close>







section \<open>Submitting for a competitor that is not in the roster\<close>

lemma stale_selection_absent:
  "uuidA \<notin> set (map id' (competitors staleSelectionState))"
  "uuidA \<notin> set (map id' (competitors orphanState))"
  using uuidA_not_uuidB by (simp_all add: staleSelectionState_def orphanState_def bob_def)

lemma stale_submitScore:
  "submitScore_v1 uuidA fiveThreeTwo staleSelectionState = orphanState"
  "submitScore_v2 uuidA fiveThreeTwo staleSelectionState = orphanState"
proof -
  have "staleSelectionState\<lparr>currentCompetitorId := uuidA, currentScores := fiveThreeTwo\<rparr>
      = staleSelectionState"
    by (simp add: staleSelectionState_def)
  then show "submitScore_v1 uuidA fiveThreeTwo staleSelectionState = orphanState"
    and "submitScore_v2 uuidA fiveThreeTwo staleSelectionState = orphanState"
    by (simp_all add: submitScore_v1_def submitScore_v2_def stale_submit_v1 stale_submit_v2)
qed

text \<open>
  Claim C3 states that for every state and every competitor identifier that does not
  reference a competitor of the roster, \<open>submitScore\<close> fails with a validation error and
  creates or modifies no score record. The handlers test only whether the selected
  identifier is empty, and the selection is not reset when the selected competitor is
  removed. After the events \<open>staleSelectionEvents\<close>, which the user interface of either
  variant admits, the selected identifier is Alice's and Alice is no longer in the
  roster; the submission then sets no error and appends a record for her.
\<close>

theorem submit_accepts_removed_competitor:
  "run_v1 staleSelectionEvents initialState = Some staleSelectionState
   \<and> run_v2 staleSelectionEvents initialState = Some staleSelectionState
   \<and> uuidA \<notin> set (map id' (competitors staleSelectionState))
   \<and> scores staleSelectionState = []
   \<and> error (submitScore_v1 uuidA fiveThreeTwo staleSelectionState) = None
   \<and> scores (submitScore_v1 uuidA fiveThreeTwo staleSelectionState) = [aliceRecord]
   \<and> error (submitScore_v2 uuidA fiveThreeTwo staleSelectionState) = None
   \<and> scores (submitScore_v2 uuidA fiveThreeTwo staleSelectionState) = [aliceRecord]"
proof -
  have "scores staleSelectionState = []"
    by (simp add: staleSelectionState_def)
  moreover have "error orphanState = None" "scores orphanState = [aliceRecord]"
    by (simp_all add: orphanState_def)
  ultimately show ?thesis
    using stale_run_v1 stale_run_v2 stale_selection_absent(1)
    by (simp only: stale_submitScore simp_thms)
qed

section \<open>Score records and the roster\<close>

text \<open>
  Adding and removing a competitor keep every score record attached to a competitor of
  the roster, and so does a submission for the empty selection or for a competitor of
  the roster.
\<close>

lemma add_v1_references:
  assumes "scoresReferenceCompetitors st"
  shows "scoresReferenceCompetitors (handleAddCompetitor_v1 uuid st)"
  using assms
  by (auto simp: scoresReferenceCompetitors_def handleAddCompetitor_v1_def Let_def
      list_all_iff list_ex_iff)

lemma add_v2_references:
  assumes "scoresReferenceCompetitors st"
  shows "scoresReferenceCompetitors (handleAddCompetitor_v2 uuid st)"
  using assms
  by (auto simp: scoresReferenceCompetitors_def handleAddCompetitor_v2_def Let_def
      list_all_iff list_ex_iff)

lemma remove_v1_references:
  assumes "scoresReferenceCompetitors st"
  shows "scoresReferenceCompetitors (handleRemoveCompetitor_v1 cid st)"
  using assms
  by (fastforce simp: scoresReferenceCompetitors_def handleRemoveCompetitor_v1_def
      list_all_iff list_ex_iff)

lemma remove_v2_references:
  assumes "scoresReferenceCompetitors st"
  shows "scoresReferenceCompetitors (handleRemoveCompetitor_v2 cid st)"
  using assms
  by (fastforce simp: scoresReferenceCompetitors_def handleRemoveCompetitor_v2_def Let_def
      list_all_iff list_ex_iff)

lemma references_update:
  assumes "list_all (\<lambda>s. list_ex (\<lambda>c. id' c = competitorId s) cs) scs"
    and "list_ex (\<lambda>c. id' c = competitorId new) cs"
  shows "list_all (\<lambda>s. list_ex (\<lambda>c. id' c = competitorId s) cs) (scs[i := new])"
proof -
  have "set (scs[i := new]) \<subseteq> insert new (set scs)"
    by (rule set_update_subset_insert)
  with assms show ?thesis
    by (auto simp: list_all_iff)
qed

lemma submit_v1_references:
  assumes "scoresReferenceCompetitors st"
    and "currentCompetitorId st = []
         \<or> list_ex (\<lambda>c. id' c = currentCompetitorId st) (competitors st)"
  shows "scoresReferenceCompetitors (handleSubmitScore_v1 st)"
proof (cases "currentCompetitorId st = []")
  case True
  with assms(1) show ?thesis
    by (simp add: handleSubmitScore_v1_def scoresReferenceCompetitors_def)
next
  case sel: False
  with assms(2) have "list_ex (\<lambda>c. id' c = competitorId (newScoreOf st)) (competitors st)"
    by (simp add: newScoreOf_def)
  moreover have "competitors (handleSubmitScore_v1 st) = competitors st"
    using sel by (simp add: handleSubmitScore_v1_def Let_def)
  ultimately show ?thesis
    using assms(1)
    by (simp add: scoresReferenceCompetitors_def submit_v1_scores [OF sel] references_update)
qed

lemma submit_v2_references:
  assumes "scoresReferenceCompetitors st"
    and "currentCompetitorId st = []
         \<or> list_ex (\<lambda>c. id' c = currentCompetitorId st) (competitors st)"
  shows "scoresReferenceCompetitors (handleSubmitScore_v2 st)"
proof (cases "currentCompetitorId st = []")
  case True
  with assms(1) show ?thesis
    by (simp add: handleSubmitScore_v2_def scoresReferenceCompetitors_def)
next
  case sel: False
  with assms(2) have "list_ex (\<lambda>c. id' c = competitorId (newScoreOf st)) (competitors st)"
    "\<And>old. list_ex (\<lambda>c. id' c = competitorId (accumulated old (newScoreOf st))) (competitors st)"
    by (simp_all add: newScoreOf_def accumulated_def)
  moreover have "competitors (handleSubmitScore_v2 st) = competitors st"
    using sel by (simp add: handleSubmitScore_v2_def Let_def)
  ultimately show ?thesis
    using assms(1)
    by (simp add: scoresReferenceCompetitors_def submit_v2_scores [OF sel] references_update)
qed

text \<open>
  Claim C4 states the invariant that every score record's competitor identifier
  references a competitor of the roster, preserved by every operation from every
  reachable state. The handlers do not preserve it. The events \<open>staleSelectionEvents\<close>
  lead both variants from the initial state to \<open>staleSelectionState\<close>, where the
  invariant holds and the removed Alice is still selected: removing a competitor resets
  the selection only in the second variant, and there only when the roster becomes
  empty. The submit button then appends a record for Alice, and in the state reached,
  \<open>orphanState\<close>, the invariant is broken.
\<close>

theorem stale_selection_leaves_orphan_record:
  "run_v1 (staleSelectionEvents @ [ClickSubmit]) initialState = Some orphanState
   \<and> run_v2 (staleSelectionEvents @ [ClickSubmit]) initialState = Some orphanState
   \<and> scoresReferenceCompetitors staleSelectionState
   \<and> handleSubmitScore_v1 staleSelectionState = orphanState
   \<and> handleSubmitScore_v2 staleSelectionState = orphanState
   \<and> competitors orphanState = [bob]
   \<and> scores orphanState = [aliceRecord]
   \<and> \<not> scoresReferenceCompetitors orphanState"
proof -
  have before: "scoresReferenceCompetitors staleSelectionState"
    by (simp add: scoresReferenceCompetitors_def staleSelectionState_def)
  have after: "\<not> scoresReferenceCompetitors orphanState"
    using uuidA_not_uuidB
    by (simp add: scoresReferenceCompetitors_def orphanState_def bob_def aliceRecord_def)
  have "competitors orphanState = [bob]" "scores orphanState = [aliceRecord]"
    by (simp_all add: orphanState_def)
  then show ?thesis
    using orphan_run_v1 orphan_run_v2 before after stale_submit_v1 stale_submit_v2
    by simp
qed

section \<open>Removing a competitor\<close>

lemma filter_neq_no_ex: "\<not> list_ex (\<lambda>x. f x = k) (filter (\<lambda>x. f x \<noteq> k) xs)"
  by (simp add: list_ex_iff)

lemma filter_neq_same: "\<not> list_ex (\<lambda>x. f x = k) xs \<Longrightarrow> filter (\<lambda>x. f x \<noteq> k) xs = xs"
  by (simp add: list_ex_iff filter_id_conv)

lemma remove_v1_competitors:
  "competitors (handleRemoveCompetitor_v1 cid st) = filter (\<lambda>c. id' c \<noteq> cid) (competitors st)"
  by (simp add: handleRemoveCompetitor_v1_def)

lemma remove_v2_competitors:
  "competitors (handleRemoveCompetitor_v2 cid st) = filter (\<lambda>c. id' c \<noteq> cid) (competitors st)"
  by (simp add: handleRemoveCompetitor_v2_def Let_def)

lemma remove_v1_idem:
  "handleRemoveCompetitor_v1 cid (handleRemoveCompetitor_v1 cid st) = handleRemoveCompetitor_v1 cid st"
  by (simp add: handleRemoveCompetitor_v1_def)

lemma remove_v2_idem:
  "handleRemoveCompetitor_v2 cid (handleRemoveCompetitor_v2 cid st) = handleRemoveCompetitor_v2 cid st"
  by (simp add: handleRemoveCompetitor_v2_def Let_def)

lemma absent_from_leaderboard:
  assumes "\<not> list_ex (\<lambda>c. id' c = cid) cs"
  shows "cid \<notin> set (map id' (sort_cmp cmp cs))"
proof -
  have "set (sort_cmp cmp cs) = set cs"
    using mset_sort_cmp [of cmp cs] by (rule mset_eq_setD)
  with assms show ?thesis
    by (auto simp: list_ex_iff)
qed

lemma referenced_absent_no_record:
  assumes "scoresReferenceCompetitors st" and "\<not> list_ex (\<lambda>c. id' c = cid) (competitors st)"
  shows "\<not> list_ex (\<lambda>s. competitorId s = cid) (scores st)"
  using assms by (auto simp: scoresReferenceCompetitors_def list_all_iff list_ex_iff)

text \<open>
  Claim C7 says of \<open>removeCompetitor(id)\<close>, among other things, that it changes
  neither the roster nor the score list when no competitor has the identifier. In
  \<open>orphanState\<close>, which both variants reach, no competitor has Alice's identifier and
  the score list holds her record; removing her identifier deletes that record.
\<close>

theorem remove_absent_competitor_counterexample:
  "run_v1 (staleSelectionEvents @ [ClickSubmit]) initialState = Some orphanState
   \<and> run_v2 (staleSelectionEvents @ [ClickSubmit]) initialState = Some orphanState
   \<and> uuidA \<notin> set (map id' (competitors orphanState))
   \<and> scores orphanState = [aliceRecord]
   \<and> scores (handleRemoveCompetitor_v1 uuidA orphanState) = []
   \<and> scores (handleRemoveCompetitor_v2 uuidA orphanState) = []"
proof -
  have sc: "scores orphanState = [aliceRecord]"
    by (simp add: orphanState_def)
  have "filter (\<lambda>s. competitorId s \<noteq> uuidA) [aliceRecord] = []"
    by (simp add: aliceRecord_def)
  then have "scores (handleRemoveCompetitor_v1 uuidA orphanState) = []"
    and "scores (handleRemoveCompetitor_v2 uuidA orphanState) = []"
    by (simp_all add: remove_v1_scores remove_v2_scores sc)
  then show ?thesis
    using orphan_run_v1 orphan_run_v2 stale_selection_absent(2) sc by simp
qed

text \<open>
  Claim C7, amended. For every state, \<open>removeCompetitor(id)\<close> leaves no competitor and
  no score record with that identifier and keeps all the others in their order, so that
  afterwards the total score of the identifier is 0 and the identifier is not in the
  leaderboard; removing twice is the same as removing once. When no competitor has the
  identifier the roster is unchanged, and the score list is unchanged if it holds no
  record with the identifier, which is the case whenever every record references a
  competitor of the roster. This holds in both variants.
\<close>

theorem remove_competitor_cascades:
  "\<not> list_ex (\<lambda>c. id' c = cid) (competitors (handleRemoveCompetitor_v1 cid st))
   \<and> \<not> list_ex (\<lambda>s. competitorId s = cid) (scores (handleRemoveCompetitor_v1 cid st))
   \<and> filter (\<lambda>c. id' c \<noteq> cid) (competitors (handleRemoveCompetitor_v1 cid st))
       = filter (\<lambda>c. id' c \<noteq> cid) (competitors st)
   \<and> filter (\<lambda>s. competitorId s \<noteq> cid) (scores (handleRemoveCompetitor_v1 cid st))
       = filter (\<lambda>s. competitorId s \<noteq> cid) (scores st)
   \<and> calculateTotalScore_v1 (scores (handleRemoveCompetitor_v1 cid st)) cid = 0
   \<and> cid \<notin> set (map id' (sortedCompetitors_v1 (competitors (handleRemoveCompetitor_v1 cid st))
                                                 (scores (handleRemoveCompetitor_v1 cid st))))
   \<and> handleRemoveCompetitor_v1 cid (handleRemoveCompetitor_v1 cid st)
       = handleRemoveCompetitor_v1 cid st
   \<and> (\<not> list_ex (\<lambda>c. id' c = cid) (competitors st) \<longrightarrow>
        competitors (handleRemoveCompetitor_v1 cid st) = competitors st)
   \<and> (\<not> list_ex (\<lambda>s. competitorId s = cid) (scores st) \<longrightarrow>
        scores (handleRemoveCompetitor_v1 cid st) = scores st)
   \<and> (\<not> list_ex (\<lambda>c. id' c = cid) (competitors st) \<and> scoresReferenceCompetitors st \<longrightarrow>
        scores (handleRemoveCompetitor_v1 cid st) = scores st)
   \<and> \<not> list_ex (\<lambda>c. id' c = cid) (competitors (handleRemoveCompetitor_v2 cid st))
   \<and> \<not> list_ex (\<lambda>s. competitorId s = cid) (scores (handleRemoveCompetitor_v2 cid st))
   \<and> filter (\<lambda>c. id' c \<noteq> cid) (competitors (handleRemoveCompetitor_v2 cid st))
       = filter (\<lambda>c. id' c \<noteq> cid) (competitors st)
   \<and> filter (\<lambda>s. competitorId s \<noteq> cid) (scores (handleRemoveCompetitor_v2 cid st))
       = filter (\<lambda>s. competitorId s \<noteq> cid) (scores st)
   \<and> calculateTotalScore_v2 (scores (handleRemoveCompetitor_v2 cid st)) cid = 0
   \<and> cid \<notin> set (map id' (sortedCompetitors_v2 (competitors (handleRemoveCompetitor_v2 cid st))
                                                 (scores (handleRemoveCompetitor_v2 cid st))))
   \<and> handleRemoveCompetitor_v2 cid (handleRemoveCompetitor_v2 cid st)
       = handleRemoveCompetitor_v2 cid st
   \<and> (\<not> list_ex (\<lambda>c. id' c = cid) (competitors st) \<longrightarrow>
        competitors (handleRemoveCompetitor_v2 cid st) = competitors st)
   \<and> (\<not> list_ex (\<lambda>s. competitorId s = cid) (scores st) \<longrightarrow>
        scores (handleRemoveCompetitor_v2 cid st) = scores st)
   \<and> (\<not> list_ex (\<lambda>c. id' c = cid) (competitors st) \<and> scoresReferenceCompetitors st \<longrightarrow>
        scores (handleRemoveCompetitor_v2 cid st) = scores st)"
proof -
  let ?cs = "filter (\<lambda>c. id' c \<noteq> cid) (competitors st)"
  let ?scs = "filter (\<lambda>s. competitorId s \<noteq> cid) (scores st)"
  have nc: "\<not> list_ex (\<lambda>c. id' c = cid) ?cs"
    by (rule filter_neq_no_ex)
  have ns: "\<not> list_ex (\<lambda>s. competitorId s = cid) ?scs"
    by (rule filter_neq_no_ex)
  have t1: "calculateTotalScore_v1 ?scs cid = 0"
    using total_no_record [OF ns] by (simp add: total_v1_sum)
  have t2: "calculateTotalScore_v2 ?scs cid = 0"
    using total_no_record [OF ns] by (simp add: total_v2_sum)
  have l1: "cid \<notin> set (map id' (sortedCompetitors_v1 ?cs ?scs))"
    unfolding sortedCompetitors_v1_def using nc by (rule absent_from_leaderboard)
  have l2: "cid \<notin> set (map id' (sortedCompetitors_v2 ?cs ?scs))"
    unfolding sortedCompetitors_v2_def using nc by (rule absent_from_leaderboard)
  have keep: "\<not> list_ex (\<lambda>c. id' c = cid) (competitors st) \<longrightarrow> ?cs = competitors st"
    "\<not> list_ex (\<lambda>s. competitorId s = cid) (scores st) \<longrightarrow> ?scs = scores st"
    by (simp_all add: filter_neq_same)
  have keep': "\<not> list_ex (\<lambda>c. id' c = cid) (competitors st) \<and> scoresReferenceCompetitors st
      \<longrightarrow> ?scs = scores st"
    using referenced_absent_no_record [of st cid] keep(2) by blast
  show ?thesis
    unfolding remove_v1_competitors remove_v2_competitors remove_v1_scores remove_v2_scores
      remove_v1_idem remove_v2_idem
    using nc ns t1 t2 l1 l2 keep keep' by simp
qed

theorem remove_competitor_cascades_witness:
  "\<not> list_ex (\<lambda>c. id' c = uuidB) (competitors resubmitState)
   \<and> \<not> list_ex (\<lambda>s. competitorId s = uuidB) (scores resubmitState)
   \<and> scoresReferenceCompetitors resubmitState
   \<and> competitors (handleRemoveCompetitor_v1 uuidB resubmitState) = [alice]
   \<and> scores (handleRemoveCompetitor_v1 uuidB resubmitState) = [aliceRecord]
   \<and> competitors (handleRemoveCompetitor_v2 uuidB resubmitState) = [alice]
   \<and> scores (handleRemoveCompetitor_v2 uuidB resubmitState) = [aliceRecord]
   \<and> calculateTotalScore_v1 (scores resubmitState) uuidA = 10
   \<and> calculateTotalScore_v1 (scores (handleRemoveCompetitor_v1 uuidA resubmitState)) uuidA = 0
   \<and> calculateTotalScore_v2 (scores (handleRemoveCompetitor_v2 uuidA resubmitState)) uuidA = 0
   \<and> uuidA \<notin> set (map id' (sortedCompetitors_v1
                               (competitors (handleRemoveCompetitor_v1 uuidA resubmitState))
                               (scores (handleRemoveCompetitor_v1 uuidA resubmitState))))"
proof -
  have cs: "competitors resubmitState = [alice]" and sc: "scores resubmitState = [aliceRecord]"
    by (simp_all add: resubmitState_def)
  have noB: "\<not> list_ex (\<lambda>c. id' c = uuidB) (competitors resubmitState)"
    using uuidA_not_uuidB by (simp add: cs alice_def)
  have noRecB: "\<not> list_ex (\<lambda>s. competitorId s = uuidB) (scores resubmitState)"
    using uuidA_not_uuidB by (simp add: sc aliceRecord_def)
  have refs: "scoresReferenceCompetitors resubmitState"
    by (simp add: scoresReferenceCompetitors_def cs sc alice_def aliceRecord_def)
  have before: "calculateTotalScore_v1 (scores resubmitState) uuidA = 10"
    by (simp add: sc calculateTotalScore_v1_def getCompetitorScores_def aliceRecord_def)
  note absent = remove_competitor_cascades [of uuidB resubmitState]
  note present = remove_competitor_cascades [of uuidA resubmitState]
  have "competitors (handleRemoveCompetitor_v1 uuidB resubmitState) = [alice]"
    and "scores (handleRemoveCompetitor_v1 uuidB resubmitState) = [aliceRecord]"
    and "competitors (handleRemoveCompetitor_v2 uuidB resubmitState) = [alice]"
    and "scores (handleRemoveCompetitor_v2 uuidB resubmitState) = [aliceRecord]"
    using absent noB noRecB by (simp_all add: cs sc)
  moreover have "calculateTotalScore_v1 (scores (handleRemoveCompetitor_v1 uuidA resubmitState)) uuidA = 0"
    and "calculateTotalScore_v2 (scores (handleRemoveCompetitor_v2 uuidA resubmitState)) uuidA = 0"
    and "uuidA \<notin> set (map id' (sortedCompetitors_v1
                               (competitors (handleRemoveCompetitor_v1 uuidA resubmitState))
                               (scores (handleRemoveCompetitor_v1 uuidA resubmitState))))"
    using present by blast+
  ultimately show ?thesis
    using noB noRecB refs before by simp
qed

section \<open>Adding a competitor with a blank name\<close>

lemma blank_name_v1:
  assumes "list_all isWhiteSpace nm"
  shows "addCompetitor_v1 uuid nm st = st\<lparr>newCompetitorName := nm\<rparr>"
  using assms by (simp add: addCompetitor_v1_def handleAddCompetitor_v1_def trim_eq_Nil_iff)

lemma blank_name_v2:
  assumes "list_all isWhiteSpace nm"
  shows "addCompetitor_v2 uuid nm st
       = st\<lparr>newCompetitorName := nm, error := Some (js ''Competitor name cannot be empty.'')\<rparr>"
  using assms by (simp add: addCompetitor_v2_def handleAddCompetitor_v2_def trim_eq_Nil_iff)

lemma blank_name_roster:
  assumes "list_all isWhiteSpace nm"
  shows "competitors (addCompetitor_v1 uuid nm st) = competitors st"
    and "competitors (addCompetitor_v2 uuid nm st) = competitors st"
    and "error (addCompetitor_v2 uuid nm st) \<noteq> None"
    and "error (addCompetitor_v1 uuid nm st) = error st"
  using assms by (simp_all add: blank_name_v1 blank_name_v2)

lemma three_spaces_blank: "list_all isWhiteSpace (js ''   '')"
  by (simp add: js_def isWhiteSpace_def)

text \<open>
  Claim C5 states that adding a competitor with an empty or white-space-only name leaves
  the roster unchanged and produces a validation error message. The roster is unchanged
  in both variants, and the second variant sets the message
  \<^verbatim>\<open>Competitor name cannot be empty.\<close> (\<open>blank_name_v2\<close>). The first variant returns
  without setting a message (\<open>blank_name_v1\<close>): with three spaces typed into the open
  dialog of the initial state, the add button leaves the error cell empty.
\<close>

theorem blank_name_sets_no_error_in_first_variant:
  "list_all isWhiteSpace (js ''   '')
   \<and> run_v1 [SetDialogOpen True, TypeName (js ''   ''), ClickAdd uuidA] initialState
       = Some (initialState\<lparr>isAddCompetitorDialogOpen := True, newCompetitorName := js ''   ''\<rparr>)
   \<and> competitors (addCompetitor_v1 uuidA (js ''   '') initialState) = []
   \<and> error (addCompetitor_v1 uuidA (js ''   '') initialState) = None
   \<and> competitors (addCompetitor_v2 uuidA (js ''   '') initialState) = []
   \<and> error (addCompetitor_v2 uuidA (js ''   '') initialState)
       = Some (js ''Competitor name cannot be empty.'')"
proof -
  have init: "competitors initialState = []" "error initialState = None"
    by (simp_all add: initialState_def)
  have "handleAddCompetitor_v1 uuidA
          (initialState\<lparr>isAddCompetitorDialogOpen := True, newCompetitorName := js ''   ''\<rparr>)
      = initialState\<lparr>isAddCompetitorDialogOpen := True, newCompetitorName := js ''   ''\<rparr>"
    using three_spaces_blank by (simp add: handleAddCompetitor_v1_def trim_eq_Nil_iff)
  then have "run_v1 [SetDialogOpen True, TypeName (js ''   ''), ClickAdd uuidA] initialState
       = Some (initialState\<lparr>isAddCompetitorDialogOpen := True, newCompetitorName := js ''   ''\<rparr>)"
    by simp
  then show ?thesis
    using three_spaces_blank init
    by (simp add: blank_name_v1 [OF three_spaces_blank] blank_name_v2 [OF three_spaces_blank])
qed

section \<open>Adding a competitor under a name already in the roster\<close>

lemma names_trimmed_add:
  assumes "namesTrimmed cs" and "trim nm \<noteq> []"
  shows "namesTrimmed (cs @ [\<lparr>id' = uuid, name = trim nm\<rparr>])"
  using assms by (simp add: namesTrimmed_def trim_idem)

lemma names_trimmed_filter: "namesTrimmed cs \<Longrightarrow> namesTrimmed (filter P cs)"
  by (simp add: namesTrimmed_def list_all_iff)

lemma step_v1_names_trimmed:
  assumes "namesTrimmed (competitors st)"
  shows "namesTrimmed (competitors (step_v1 ev st))"
proof (cases ev)
  case (ClickAdd uuid)
  with assms show ?thesis
    by (simp add: handleAddCompetitor_v1_def Let_def names_trimmed_add)
next
  case (ClickRemove cid)
  with assms show ?thesis
    by (simp add: remove_v1_competitors names_trimmed_filter)
next
  case ClickSubmit
  with assms show ?thesis
    by (simp add: handleSubmitScore_v1_def Let_def)
qed (use assms in \<open>simp_all add: handleScoreChange_def\<close>)

lemma step_v2_names_trimmed:
  assumes "namesTrimmed (competitors st)"
  shows "namesTrimmed (competitors (step_v2 ev st))"
proof (cases ev)
  case (ClickAdd uuid)
  with assms show ?thesis
    by (simp add: handleAddCompetitor_v2_def Let_def names_trimmed_add)
next
  case (ClickRemove cid)
  with assms show ?thesis
    by (simp add: remove_v2_competitors names_trimmed_filter)
next
  case ClickSubmit
  with assms show ?thesis
    by (simp add: handleSubmitScore_v2_def Let_def)
qed (use assms in \<open>simp_all add: handleScoreChange_def\<close>)

lemma reachable_v1_names_trimmed: "reachable_v1 st \<Longrightarrow> namesTrimmed (competitors st)"
proof (induction rule: reachable_v1.induct)
  case reach_init_v1
  show ?case by (simp add: initialState_def namesTrimmed_def)
next
  case (reach_step_v1 st ev)
  then show ?case by (simp add: step_v1_names_trimmed)
qed

lemma reachable_v2_names_trimmed: "reachable_v2 st \<Longrightarrow> namesTrimmed (competitors st)"
proof (induction rule: reachable_v2.induct)
  case reach_init_v2
  show ?case by (simp add: initialState_def namesTrimmed_def)
next
  case (reach_step_v2 st ev)
  then show ?case by (simp add: step_v2_names_trimmed)
qed

lemma existing_name_passes_checks:
  assumes "namesTrimmed cs" and "c \<in> set cs"
  shows "trim (name c) \<noteq> [] \<and> list_ex (\<lambda>competitor. name competitor = trim (name c)) cs"
proof -
  from assms have "name c \<noteq> []" and t: "trim (name c) = name c"
    by (simp_all add: namesTrimmed_def list_all_iff)
  moreover have "list_ex (\<lambda>competitor. name competitor = name c) cs"
    using assms(2) by (auto simp: list_ex_iff)
  ultimately show ?thesis by simp
qed

text \<open>
  Claim C9. Adding a competitor under a name that is exactly (case-sensitively) the name
  of a competitor already in the roster is rejected with the validation error
  \<^verbatim>\<open>Competitor name already exists.\<close> and leaves the roster unchanged. The handler
  compares the names of the roster with the trimmed input; every name of the roster was
  stored trimmed and non-empty, in every reachable state, so the trimmed input is the
  name itself. This holds in both variants.
\<close>

theorem duplicate_name_rejected:
  "(reachable_v1 st \<longrightarrow> namesTrimmed (competitors st))
   \<and> (reachable_v2 st \<longrightarrow> namesTrimmed (competitors st))
   \<and> (namesTrimmed (competitors st) \<and> c \<in> set (competitors st) \<longrightarrow>
        addCompetitor_v1 uuid (name c) st
          = st\<lparr>newCompetitorName := name c,
               error := Some (js ''Competitor name already exists.'')\<rparr>
      \<and> competitors (addCompetitor_v1 uuid (name c) st) = competitors st
      \<and> addCompetitor_v2 uuid (name c) st
          = st\<lparr>newCompetitorName := name c,
               error := Some (js ''Competitor name already exists.'')\<rparr>
      \<and> competitors (addCompetitor_v2 uuid (name c) st) = competitors st)"
proof (intro conjI impI)
  assume "reachable_v1 st"
  then show "namesTrimmed (competitors st)"
    by (rule reachable_v1_names_trimmed)
next
  assume "reachable_v2 st"
  then show "namesTrimmed (competitors st)"
    by (rule reachable_v2_names_trimmed)
next
  assume h: "namesTrimmed (competitors st) \<and> c \<in> set (competitors st)"
  then have checks: "trim (name c) \<noteq> []"
    "list_ex (\<lambda>competitor. name competitor = trim (name c)) (competitors st)"
    using existing_name_passes_checks [of "competitors st" c] by simp_all
  show v1: "addCompetitor_v1 uuid (name c) st
          = st\<lparr>newCompetitorName := name c,
               error := Some (js ''Competitor name already exists.'')\<rparr>"
    using checks by (simp add: addCompetitor_v1_def handleAddCompetitor_v1_def)
  show v2: "addCompetitor_v2 uuid (name c) st
          = st\<lparr>newCompetitorName := name c,
               error := Some (js ''Competitor name already exists.'')\<rparr>"
    using checks by (simp add: addCompetitor_v2_def handleAddCompetitor_v2_def)
  show "competitors (addCompetitor_v1 uuid (name c) st) = competitors st"
    by (simp add: v1)
  show "competitors (addCompetitor_v2 uuid (name c) st) = competitors st"
    by (simp add: v2)
qed

lemma alice_only_run:
  "run_v1 [SetDialogOpen True, TypeName (js ''Alice''), ClickAdd uuidA] initialState
     = Some aliceOnlyState"
  "run_v2 [SetDialogOpen True, TypeName (js ''Alice''), ClickAdd uuidA] initialState
     = Some aliceOnlyState"
  using trim_Alice Alice_not_Bob
  by (simp_all add: initialState_def aliceOnlyState_def handleAddCompetitor_v1_def
      handleAddCompetitor_v2_def alice_def)

theorem duplicate_name_rejected_witness:
  "reachable_v1 aliceOnlyState \<and> reachable_v2 aliceOnlyState
   \<and> namesTrimmed (competitors aliceOnlyState)
   \<and> alice \<in> set (competitors aliceOnlyState)
   \<and> error (addCompetitor_v1 uuidB (js ''Alice'') aliceOnlyState)
       = Some (js ''Competitor name already exists.'')
   \<and> competitors (addCompetitor_v1 uuidB (js ''Alice'') aliceOnlyState) = [alice]
   \<and> error (addCompetitor_v2 uuidB (js ''Alice'') aliceOnlyState)
       = Some (js ''Competitor name already exists.'')
   \<and> competitors (addCompetitor_v2 uuidB (js ''Alice'') aliceOnlyState) = [alice]"
proof -
  have r1: "reachable_v1 aliceOnlyState"
    using alice_only_run(1) reach_init_v1 by (rule run_v1_reachable)
  have r2: "reachable_v2 aliceOnlyState"
    using alice_only_run(2) reach_init_v2 by (rule run_v2_reachable)
  have mem: "alice \<in> set (competitors aliceOnlyState)"
    and cs: "competitors aliceOnlyState = [alice]"
    by (simp_all add: aliceOnlyState_def)
  have nm: "name alice = js ''Alice''"
    by (simp add: alice_def)
  note inst = duplicate_name_rejected [where st = aliceOnlyState and c = alice and uuid = uuidB]
  have inv: "namesTrimmed (competitors aliceOnlyState)"
    using inst r1 by blast
  have "addCompetitor_v1 uuidB (name alice) aliceOnlyState
          = aliceOnlyState\<lparr>newCompetitorName := name alice,
               error := Some (js ''Competitor name already exists.'')\<rparr>"
    and "addCompetitor_v2 uuidB (name alice) aliceOnlyState
          = aliceOnlyState\<lparr>newCompetitorName := name alice,
               error := Some (js ''Competitor name already exists.'')\<rparr>"
    using inst inv mem by blast+
  then show ?thesis
    using r1 r2 inv mem by (simp add: nm cs)
qed

section \<open>Submitting without a selection\<close>

text \<open>
  The state \<open>aliceScoredState\<close>, with one competitor and one score record, is reached in
  both variants by the events \<open>aliceScoredEvents\<close>; the score form is shown there and
  nobody is selected.
\<close>

lemma alice_scored_run:
  "run_v1 aliceScoredEvents initialState = Some aliceScoredState"
  "run_v2 aliceScoredEvents initialState = Some aliceScoredState"
  using trim_Alice Alice_not_Bob uuidA_not_Nil
  by (simp_all add: aliceScoredEvents_def initialState_def aliceScoredState_def
      handleAddCompetitor_v1_def handleAddCompetitor_v2_def handleSubmitScore_v1_def
      handleSubmitScore_v2_def handleScoreChange_def newScoreOf_def alice_def aliceRecord_def
      zeroScores_def)

text \<open>
  Claim C10. When \<^verbatim>\<open>handleSubmitScore\<close> fails its check, that is when the selected
  competitor identifier is the empty string, the roster and the score list are left as
  they were: the state after the call is the state before it with only the error
  message set. This holds in both variants.
\<close>

theorem submit_without_selection_only_sets_error:
  assumes "currentCompetitorId st = []"
  shows "handleSubmitScore_v1 st = st\<lparr>error := Some (js ''Please select a competitor.'')\<rparr>
       \<and> handleSubmitScore_v2 st = st\<lparr>error := Some (js ''Please select a competitor.'')\<rparr>
       \<and> competitors (handleSubmitScore_v1 st) = competitors st
       \<and> scores (handleSubmitScore_v1 st) = scores st
       \<and> competitors (handleSubmitScore_v2 st) = competitors st
       \<and> scores (handleSubmitScore_v2 st) = scores st"
  using assms by (simp add: handleSubmitScore_v1_def handleSubmitScore_v2_def)

theorem submit_without_selection_only_sets_error_witness:
  "run_v1 aliceScoredEvents initialState = Some aliceScoredState
   \<and> run_v2 aliceScoredEvents initialState = Some aliceScoredState
   \<and> enabled_v1 ClickSubmit aliceScoredState
   \<and> enabled_v2 ClickSubmit aliceScoredState
   \<and> currentCompetitorId aliceScoredState = []
   \<and> competitors aliceScoredState = [alice]
   \<and> scores aliceScoredState = [aliceRecord]
   \<and> handleSubmitScore_v1 aliceScoredState
       = aliceScoredState\<lparr>error := Some (js ''Please select a competitor.'')\<rparr>
   \<and> handleSubmitScore_v2 aliceScoredState
       = aliceScoredState\<lparr>error := Some (js ''Please select a competitor.'')\<rparr>
   \<and> competitors (handleSubmitScore_v1 aliceScoredState) = [alice]
   \<and> scores (handleSubmitScore_v1 aliceScoredState) = [aliceRecord]
   \<and> competitors (handleSubmitScore_v2 aliceScoredState) = [alice]
   \<and> scores (handleSubmitScore_v2 aliceScoredState) = [aliceRecord]"
proof -
  have sel: "currentCompetitorId aliceScoredState = []"
    by (simp add: aliceScoredState_def)
  have lists: "competitors aliceScoredState = [alice]" "scores aliceScoredState = [aliceRecord]"
    by (simp_all add: aliceScoredState_def)
  have shown: "enabled_v1 ClickSubmit aliceScoredState" "enabled_v2 ClickSubmit aliceScoredState"
    by (simp_all add: lists)
  show ?thesis
    using sel lists shown alice_scored_run
      submit_without_selection_only_sets_error [OF sel]
    by simp
qed

section \<open>Worked examples\<close>

text \<open>
  The state \<open>resubmitState\<close> used above arises in both variants when Alice is added,
  scored 5, 3, 2, selected again and given the entries 1, 1, 1.
\<close>

lemma resubmit_run:
  "run_v1 [SetDialogOpen True, TypeName (js ''Alice''), ClickAdd uuidA, SelectCompetitor uuidA,
           ChangeScore Creativity 5, ChangeScore Technique 3, ChangeScore Presentation 2,
           ClickSubmit, SelectCompetitor uuidA,
           ChangeScore Creativity 1, ChangeScore Technique 1, ChangeScore Presentation 1]
     initialState = Some resubmitState"
  "run_v2 [SetDialogOpen True, TypeName (js ''Alice''), ClickAdd uuidA, SelectCompetitor uuidA,
           ChangeScore Creativity 5, ChangeScore Technique 3, ChangeScore Presentation 2,
           ClickSubmit, SelectCompetitor uuidA,
           ChangeScore Creativity 1, ChangeScore Technique 1, ChangeScore Presentation 1]
     initialState = Some resubmitState"
  using trim_Alice Alice_not_Bob uuidA_not_Nil
  by (simp_all add: initialState_def resubmitState_def handleAddCompetitor_v1_def
      handleAddCompetitor_v2_def handleSubmitScore_v1_def handleSubmitScore_v2_def
      handleScoreChange_def newScoreOf_def alice_def aliceRecord_def zeroScores_def)

text \<open>
  The leaderboard on small rosters: Bob with 15 points stands before Alice with 10, and
  with equal totals, or with no scores at all, the two keep the order of the roster.
\<close>

lemma leaderboard_examples:
  "sortedCompetitors_v1 [alice, bob]
     [aliceRecord, \<lparr>creativity = 5, technique = 5, presentation = 5, competitorId = uuidB\<rparr>]
     = [bob, alice]"
  "sortedCompetitors_v2 [alice, bob]
     [aliceRecord, \<lparr>creativity = 5, technique = 5, presentation = 5, competitorId = uuidB\<rparr>]
     = [bob, alice]"
  "sortedCompetitors_v1 [alice, bob]
     [aliceRecord, \<lparr>creativity = 2, technique = 3, presentation = 5, competitorId = uuidB\<rparr>]
     = [alice, bob]"
  "sortedCompetitors_v2 [alice, bob]
     [aliceRecord, \<lparr>creativity = 2, technique = 3, presentation = 5, competitorId = uuidB\<rparr>]
     = [alice, bob]"
  "sortedCompetitors_v1 [alice, bob] [] = [alice, bob]"
  using uuidA_not_uuidB uuidA_not_uuidB [symmetric]
  by (simp_all add: sortedCompetitors_v1_def sortedCompetitors_v2_def sort_cmp_def
      calculateTotalScore_v1_def calculateTotalScore_v2_def getCompetitorScores_def
      alice_def bob_def aliceRecord_def)

end
